theory Spec2Isabelle
  imports Main "HOL-Library.Sublist" "HOL-Library.Word"
begin

unbundle bit_operations_syntax

section \<open>C strings, character classes and formatting\<close>

text \<open>
  A C string is modelled by the list of its bytes before the terminating NUL; a
  buffer (a \<^verbatim>\<open>char[N]\<close> array) is modelled by the list of all its bytes.
\<close>

abbreviation NUL :: char where "NUL \<equiv> CHR 0x00"
abbreviation CR :: char where "CR \<equiv> CHR 0x0D"
abbreviation LF :: char where "LF \<equiv> CHR 0x0A"

definition PATH_MAX :: nat where
  "PATH_MAX = 4096"

text \<open>\<^verbatim>\<open>isspace\<close>, \<^verbatim>\<open>iscntrl\<close> and \<^verbatim>\<open>tolower\<close> in the C locale.\<close>

definition isspace :: "char \<Rightarrow> bool" where
  "isspace c = (c = CHR '' '' \<or> c = CHR 0x09 \<or> c = LF \<or> c = CHR 0x0B \<or> c = CHR 0x0C \<or> c = CR)"

definition iscntrl :: "char \<Rightarrow> bool" where
  "iscntrl c = ((of_char c :: nat) < 32 \<or> (of_char c :: nat) = 127)"

definition tolower :: "char \<Rightarrow> char" where
  "tolower c = (if 65 \<le> (of_char c :: nat) \<and> (of_char c :: nat) \<le> 90
                then char_of ((of_char c :: nat) + 32) else c)"

text \<open>\<^verbatim>\<open>strcasecmp(a, b) == 0\<close>.\<close>

definition strcasecmp_eq :: "string \<Rightarrow> string \<Rightarrow> bool" where
  "strcasecmp_eq a b = (map tolower a = map tolower b)"

text \<open>\<^verbatim>\<open>strrchr(s, c)\<close>: the suffix of \<open>s\<close> that starts at the last \<open>c\<close>, if any.\<close>

fun strrchr :: "string \<Rightarrow> char \<Rightarrow> string option" where
  "strrchr [] c = None"
| "strrchr (x # xs) c =
     (case strrchr xs c of
        Some r \<Rightarrow> Some r
      | None \<Rightarrow> if x = c then Some (x # xs) else None)"

text \<open>\<^verbatim>\<open>strstr(hay, needle) != NULL\<close>.\<close>

definition strstr_found :: "string \<Rightarrow> string \<Rightarrow> bool" where
  "strstr_found hay needle = sublist needle hay"

text \<open>The conversions \<^verbatim>\<open>%d\<close> and \<^verbatim>\<open>%lld\<close> of the printf family.\<close>

fun dec_digits :: "nat \<Rightarrow> string" where
  "dec_digits n =
     (if n < 10 then [''0123456789'' ! n]
      else dec_digits (n div 10) @ [''0123456789'' ! (n mod 10)])"

declare dec_digits.simps [simp del]

definition fmt_int :: "int \<Rightarrow> string" where
  "fmt_int i = (if i < 0 then CHR ''-'' # dec_digits (nat (- i)) else dec_digits (nat i))"

text \<open>Storing \<open>data\<close> into a buffer at offset \<open>off\<close>; the other bytes are kept.\<close>

definition buf_write :: "nat \<Rightarrow> string \<Rightarrow> string \<Rightarrow> string" where
  "buf_write off data buf = take off buf @ data @ drop (off + length data) buf"

text \<open>
  \<^verbatim>\<open>snprintf(dst, cap, ...)\<close> where \<open>s\<close> is the fully formatted output: at most
  \<open>cap - 1\<close> bytes of \<open>s\<close> and a NUL are stored, nothing when \<open>cap = 0\<close>, and the
  length of the full output is returned whether it was truncated or not.
\<close>

definition snprintf :: "string \<Rightarrow> nat \<Rightarrow> string \<Rightarrow> int \<times> string" where
  "snprintf dst cap s =
     (int (length s),
      if cap = 0 then dst else buf_write 0 (take (cap - 1) s @ [NUL]) dst)"

text \<open>The C string held by a buffer: its bytes before the first NUL.\<close>

definition c_str :: "string \<Rightarrow> string" where
  "c_str buf = takeWhile (\<lambda>c. c \<noteq> NUL) buf"

section \<open>http.c: request parser and response builder\<close>

datatype http_method = HTTP_METHOD_GET | HTTP_METHOD_HEAD | HTTP_METHOD_UNSUPPORTED

record http_request =
  rq_method :: http_method
  rq_target :: string

text \<open>
  \<^verbatim>\<open>find_request_line_end\<close>: the index of the first CR that is followed by LF, or -1.
  The argument is the first \<^verbatim>\<open>raw_len\<close> bytes of \<^verbatim>\<open>raw\<close>.
\<close>

fun find_request_line_end_from :: "nat \<Rightarrow> string \<Rightarrow> int" where
  "find_request_line_end_from i (a # b # rest) =
     (if a = CR \<and> b = LF then int i else find_request_line_end_from (Suc i) (b # rest))"
| "find_request_line_end_from i rest = - 1"

definition find_request_line_end :: "string \<Rightarrow> int" where
  "find_request_line_end raw = find_request_line_end_from 0 raw"

text \<open>
  One \<^verbatim>\<open>%Ns\<close> conversion of \<^verbatim>\<open>sscanf\<close>: skip white space, then take at most \<open>w\<close>
  bytes up to the next white space; the conversion fails when nothing is left.
  The result is the token and the unread input.
\<close>

definition scan_s :: "nat \<Rightarrow> string \<Rightarrow> (string \<times> string) option" where
  "scan_s w inp =
     (let s = dropWhile isspace inp;
          tok = take w (takeWhile (\<lambda>c. \<not> isspace c) s)
      in if tok = [] then None else Some (tok, drop (length tok) s))"

text \<open>
  \<^verbatim>\<open>sscanf(line, "%15s %4095s %15s", method, target, version)\<close>: the number of
  conversions made (EOF, -1, when the input ends before the first) and the three
  buffers, which the caller initialised to empty strings. The white space of the
  format is subsumed by the skipping that \<^verbatim>\<open>%s\<close> does itself.
\<close>

definition sscanf_request_line :: "string \<Rightarrow> int \<times> string \<times> string \<times> string" where
  "sscanf_request_line line =
     (case scan_s 15 line of
        None \<Rightarrow> (- 1, [], [], [])
      | Some (m, r1) \<Rightarrow>
          (case scan_s 4095 r1 of
             None \<Rightarrow> (1, m, [], [])
           | Some (t, r2) \<Rightarrow>
               (case scan_s 15 r2 of
                  None \<Rightarrow> (2, m, t, [])
                | Some (v, r3) \<Rightarrow> (3, m, t, v))))"

text \<open>
  \<^verbatim>\<open>parse_http_request(raw, raw_len, out)\<close>. \<open>raw\<close> is the first \<^verbatim>\<open>raw_len\<close> bytes;
  the result is the return code and the request record \<open>out\<close> as the call leaves it.
\<close>

definition parse_http_request :: "string \<Rightarrow> http_request \<Rightarrow> int \<times> http_request" where
  "parse_http_request raw out =
     (if length raw = 0 then (400, out)
      else
        let line_end = find_request_line_end raw in
        if line_end \<le> 0 \<or> line_end \<ge> 2048 then (400, out)
        else
          let line = c_str (take (nat line_end) raw);
              (parts, method, target, version) = sscanf_request_line line
          in
            if parts \<noteq> 3 then (400, out)
            else if version \<noteq> ''HTTP/1.1'' \<and> version \<noteq> ''HTTP/1.0'' then (400, out)
            else if (case target of [] \<Rightarrow> True | c # cs \<Rightarrow> c \<noteq> CHR ''/'') then (400, out)
            else if list_ex iscntrl target then (400, out)
            else if strcasecmp_eq method ''GET'' then
              (0, out\<lparr>rq_method := HTTP_METHOD_GET, rq_target := take (PATH_MAX - 1) target\<rparr>)
            else if strcasecmp_eq method ''HEAD'' then
              (0, out\<lparr>rq_method := HTTP_METHOD_HEAD, rq_target := take (PATH_MAX - 1) target\<rparr>)
            else
              (405, out\<lparr>rq_method := HTTP_METHOD_UNSUPPORTED,
                         rq_target := take (PATH_MAX - 1) target\<rparr>))"

definition http_reason_phrase :: "int \<Rightarrow> string" where
  "http_reason_phrase status_code =
     (if status_code = 200 then ''OK''
      else if status_code = 400 then ''Bad Request''
      else if status_code = 403 then ''Forbidden''
      else if status_code = 404 then ''Not Found''
      else if status_code = 405 then ''Method Not Allowed''
      else ''Internal Server Error'')"

definition guess_mime_type :: "string \<Rightarrow> string" where
  "guess_mime_type path =
     (case strrchr path (CHR ''.'') of
        None \<Rightarrow> ''application/octet-stream''
      | Some dot \<Rightarrow>
          if strcasecmp_eq dot ''.html'' \<or> strcasecmp_eq dot ''.htm'' then ''text/html; charset=utf-8''
          else if strcasecmp_eq dot ''.txt'' then ''text/plain; charset=utf-8''
          else if strcasecmp_eq dot ''.css'' then ''text/css; charset=utf-8''
          else if strcasecmp_eq dot ''.js'' then ''application/javascript; charset=utf-8''
          else if strcasecmp_eq dot ''.json'' then ''application/json; charset=utf-8''
          else if strcasecmp_eq dot ''.jpg'' \<or> strcasecmp_eq dot ''.jpeg'' then ''image/jpeg''
          else if strcasecmp_eq dot ''.png'' then ''image/png''
          else if strcasecmp_eq dot ''.gif'' then ''image/gif''
          else if strcasecmp_eq dot ''.svg'' then ''image/svg+xml''
          else ''application/octet-stream'')"

text \<open>
  \<^verbatim>\<open>format_http_date(dst, dst_sz)\<close> reads the clock and calls \<^verbatim>\<open>strftime\<close>; the model
  takes the text \<open>stamp\<close> that \<^verbatim>\<open>strftime\<close> produces for the current time and keeps
  what fits the buffer.
\<close>

definition format_http_date :: "string \<Rightarrow> nat \<Rightarrow> string" where
  "format_http_date stamp dst_sz = take (dst_sz - 1) stamp"

text \<open>The output that the format string of \<^verbatim>\<open>build_response_headers\<close> describes.\<close>

definition response_header_text ::
  "int \<Rightarrow> string \<Rightarrow> string \<Rightarrow> int \<Rightarrow> bool \<Rightarrow> string" where
  "response_header_text status_code date content_type content_length include_allow_header =
     ''HTTP/1.1 '' @ fmt_int status_code @ '' '' @ http_reason_phrase status_code @ [CR, LF]
     @ ''Date: '' @ date @ [CR, LF]
     @ ''Server: comp4981-httpd/1.0'' @ [CR, LF]
     @ ''Connection: close'' @ [CR, LF]
     @ ''Content-Type: '' @ content_type @ [CR, LF]
     @ ''Content-Length: '' @ fmt_int content_length @ [CR, LF]
     @ (if include_allow_header then ''Allow: GET, HEAD'' @ [CR, LF] else [])
     @ [CR, LF]"

text \<open>
  \<^verbatim>\<open>build_response_headers(dst, cap, status_code, content_type, content_length,
  include_allow_header)\<close>, with the clock text as one more argument. The result is the
  return value and the destination buffer as the call leaves it.
\<close>

definition build_response_headers ::
  "string \<Rightarrow> string \<Rightarrow> nat \<Rightarrow> int \<Rightarrow> string \<Rightarrow> int \<Rightarrow> bool \<Rightarrow> int \<times> string" where
  "build_response_headers stamp dst cap status_code content_type content_length
       include_allow_header =
     (let date = format_http_date stamp 128;
          (n, dst') = snprintf dst cap
             (response_header_text status_code date content_type content_length
                include_allow_header)
      in if n < 0 \<or> nat n \<ge> cap then (- 1, dst') else (n, dst'))"

section \<open>path.c: mapping a request target to a file under the document root\<close>

text \<open>
  The file system is an argument of the model: what \<^verbatim>\<open>realpath\<close>, \<^verbatim>\<open>stat\<close> and
  \<^verbatim>\<open>open\<close> answer for a path. A failure carries its error number; \<open>EIO\<close> stands
  for every error number the code does not name.
\<close>

datatype errno = ENOENT | ENOTDIR | EACCES | EINTR | EAGAIN | EIO

record stat_t =
  st_is_reg :: bool
  st_size :: int

record filesystem =
  fs_realpath :: "string \<Rightarrow> errno + string"
  fs_stat :: "string \<Rightarrow> errno + stat_t"
  fs_open :: "string \<Rightarrow> errno + string"

definition contains_traversal :: "string \<Rightarrow> bool" where
  "contains_traversal p =
     (if List.member p (CHR 0x5C) then True
      else if p = ''/..'' then True
      else if take 4 p = ''/../'' then True
      else if strstr_found p ''/../'' then True
      else if length p \<ge> 3 \<and> drop (length p - 3) p = ''/..'' then True
      else if strstr_found p ''%2e%2e'' \<or> strstr_found p ''%2E%2E'' \<or> strstr_found p ''%2e.''
              \<or> strstr_found p ''.%2e'' \<or> strstr_found p ''%2E.'' then True
      else False)"

definition starts_with_doc_root :: "string \<Rightarrow> string \<Rightarrow> bool" where
  "starts_with_doc_root full doc_root =
     (let root_len = length doc_root in
      if take root_len full \<noteq> doc_root then False
      else (case drop root_len full of [] \<Rightarrow> True | c # cs \<Rightarrow> c = CHR ''/''))"

text \<open>
  \<^verbatim>\<open>snprintf\<close> into a local buffer of \<open>cap > 0\<close> bytes that is read back as a C
  string: the length of the full output and the string stored.
\<close>

definition str_snprintf :: "nat \<Rightarrow> string \<Rightarrow> int \<times> string" where
  "str_snprintf cap s = (int (length s), take (cap - 1) s)"

text \<open>
  The second half of \<^verbatim>\<open>resolve_path\<close> (from "Build candidate absolute path" on),
  given the normalized target. \<open>out_path\<close> is the C string in the caller's buffer.
\<close>

definition resolve_candidate ::
  "filesystem \<Rightarrow> string \<Rightarrow> string \<Rightarrow> string \<Rightarrow> nat \<Rightarrow> int \<times> string" where
  "resolve_candidate fs doc_root normalized out_path out_sz =
     (let (n, candidate) = str_snprintf PATH_MAX (doc_root @ normalized) in
      if n \<ge> int PATH_MAX then (400, out_path)
      else
        (case fs_realpath fs candidate of
           Inl e \<Rightarrow>
             if e = ENOENT \<or> e = ENOTDIR then (404, out_path)
             else if e = EACCES then (403, out_path)
             else (500, out_path)
         | Inr canonical \<Rightarrow>
             if \<not> starts_with_doc_root canonical doc_root then (403, out_path)
             else
               (case fs_stat fs canonical of
                  Inl e \<Rightarrow>
                    if e = ENOENT \<or> e = ENOTDIR then (404, out_path)
                    else if e = EACCES then (403, out_path)
                    else (500, out_path)
                | Inr st \<Rightarrow>
                    if \<not> st_is_reg st then (403, out_path)
                    else
                      let (m, out') = str_snprintf out_sz canonical in
                      if m \<ge> int out_sz then (500, out') else (0, out'))))"

text \<open>
  \<^verbatim>\<open>resolve_path(doc_root, url_target, out_path, out_sz)\<close>: the return code and the
  string in \<open>out_path\<close> afterwards. The pointers are never null in the model.
\<close>

definition resolve_path ::
  "filesystem \<Rightarrow> string \<Rightarrow> string \<Rightarrow> string \<Rightarrow> nat \<Rightarrow> int \<times> string" where
  "resolve_path fs doc_root url_target out_path out_sz =
     (if out_sz = 0 then (500, out_path)
      else if (case url_target of [] \<Rightarrow> True | c # cs \<Rightarrow> c \<noteq> CHR ''/'') then (400, out_path)
      else
        let target = take (PATH_MAX - 1)
                       (takeWhile (\<lambda>c. c \<noteq> CHR ''?'' \<and> c \<noteq> CHR ''#'') url_target)
        in
          if target = [] then (400, out_path)
          else if contains_traversal target then (403, out_path)
          else if target = ''/'' then
            resolve_candidate fs doc_root (snd (str_snprintf PATH_MAX ''/index.html''))
              out_path out_sz
          else if last target = CHR ''/'' then
            (if length target + length ''index.html'' + 1 > PATH_MAX then (400, out_path)
             else resolve_candidate fs doc_root
                    (snd (str_snprintf PATH_MAX (target @ ''index.html''))) out_path out_sz)
          else resolve_candidate fs doc_root (snd (str_snprintf PATH_MAX target))
                 out_path out_sz)"

section \<open>server.c: the connection slot and its environment\<close>

definition MAX_HEADER_BYTES :: nat where
  "MAX_HEADER_BYTES = 16384"

definition MAX_RESP_HEADER :: nat where
  "MAX_RESP_HEADER = 2048"

definition MAX_ERROR_BODY :: nat where
  "MAX_ERROR_BODY = 512"

definition FILE_CHUNK :: nat where
  "FILE_CHUNK = 8192"

datatype io_mode = MODE_READING | MODE_WRITING

record server_config_t =
  doc_root :: string
  max_header_size :: nat

record client_t =
  active :: bool
  fd :: int
  mode :: io_mode
  req_buf :: string
  req_len :: nat
  hdr_buf :: string
  hdr_len :: nat
  hdr_sent :: nat
  mem_body :: string
  mem_len :: nat
  mem_sent :: nat
  is_head :: bool
  file_fd :: int
  file_size :: int
  file_sent :: int
  chunk :: string
  chunk_len :: int
  chunk_sent :: int

text \<open>
  What one connection sees of the world outside the process. The three scripts say
  what the kernel answers to the n-th \<^verbatim>\<open>send\<close>, \<^verbatim>\<open>recv\<close> and \<^verbatim>\<open>read\<close> of the
  connection: an error number, or how many bytes the socket takes (\<open>send\<close>), which
  bytes have arrived (\<open>recv\<close>), one less than the number of bytes granted at most
  (\<open>read\<close>). \<open>wire\<close> collects the bytes that the client socket has accepted,
  \<open>open_data\<close> and \<open>open_off\<close> are the contents and the offset of the file the slot
  has open, \<open>opened\<close> lists the paths opened, \<open>closed\<close> the descriptors closed.
\<close>

record world =
  files :: filesystem
  stamp :: string
  wire :: string
  send_script :: "nat \<Rightarrow> errno + nat"
  send_calls :: nat
  recv_script :: "nat \<Rightarrow> errno + string"
  recv_calls :: nat
  read_script :: "nat \<Rightarrow> errno + nat"
  read_calls :: nat
  open_data :: string
  open_off :: nat
  next_fd :: nat
  opened :: "string list"
  closed :: "int list"

text \<open>\<^verbatim>\<open>send(fd, p, len, 0)\<close>, \<open>data\<close> being the \<open>len\<close> bytes at \<open>p\<close>.\<close>

definition sys_send :: "string \<Rightarrow> world \<Rightarrow> (errno + nat) \<times> world" where
  "sys_send data w =
     (let w1 = w\<lparr>send_calls := send_calls w + 1\<rparr> in
      case send_script w (send_calls w) of
        Inl e \<Rightarrow> (Inl e, w1)
      | Inr k \<Rightarrow>
          let n = min k (length data) in
          (Inr n, w1\<lparr>wire := wire w @ take n data\<rparr>))"

text \<open>\<^verbatim>\<open>recv(fd, p, len, 0)\<close>: the bytes received, none when the peer has closed.\<close>

definition sys_recv :: "nat \<Rightarrow> world \<Rightarrow> (errno + string) \<times> world" where
  "sys_recv len w =
     (let w1 = w\<lparr>recv_calls := recv_calls w + 1\<rparr> in
      case recv_script w (recv_calls w) of
        Inl e \<Rightarrow> (Inl e, w1)
      | Inr s \<Rightarrow> (Inr (take len s), w1))"

text \<open>\<^verbatim>\<open>read(file_fd, p, len)\<close> on the open file: the bytes read, none at end of file.\<close>

definition sys_read :: "nat \<Rightarrow> world \<Rightarrow> (errno + string) \<times> world" where
  "sys_read len w =
     (let w1 = w\<lparr>read_calls := read_calls w + 1\<rparr> in
      case read_script w (read_calls w) of
        Inl e \<Rightarrow> (Inl e, w1)
      | Inr k \<Rightarrow>
          let data = take (min len (Suc k)) (drop (open_off w) (open_data w)) in
          (Inr data, w1\<lparr>open_off := open_off w + length data\<rparr>))"

text \<open>\<^verbatim>\<open>open(path, O_RDONLY)\<close>.\<close>

definition sys_open :: "string \<Rightarrow> world \<Rightarrow> (errno + int) \<times> world" where
  "sys_open path w =
     (case fs_open (files w) path of
        Inl e \<Rightarrow> (Inl e, w)
      | Inr content \<Rightarrow>
          (Inr (int (next_fd w)),
           w\<lparr>open_data := content, open_off := 0, opened := opened w @ [path]\<rparr>))"

definition sys_close :: "int \<Rightarrow> world \<Rightarrow> world" where
  "sys_close d w = w\<lparr>closed := closed w @ [d]\<rparr>"

fun has_header_end :: "string \<Rightarrow> bool" where
  "has_header_end (a # b # c # d # rest) =
     (if a = CR \<and> b = LF \<and> c = CR \<and> d = LF then True
      else has_header_end (b # c # d # rest))"
| "has_header_end rest = False"

definition status_from_errno :: "errno \<Rightarrow> int" where
  "status_from_errno e =
     (if e = ENOENT \<or> e = ENOTDIR then 404 else if e = EACCES then 403 else 500)"

text \<open>\<^verbatim>\<open>reset_client\<close>: \<^verbatim>\<open>memset\<close> to zero, then the two descriptors to -1.\<close>

definition reset_client :: "client_t \<Rightarrow> client_t" where
  "reset_client c =
     \<lparr>active = False, fd = - 1, mode = MODE_READING,
      req_buf = replicate (MAX_HEADER_BYTES + 1) NUL, req_len = 0,
      hdr_buf = replicate MAX_RESP_HEADER NUL, hdr_len = 0, hdr_sent = 0,
      mem_body = replicate MAX_ERROR_BODY NUL, mem_len = 0, mem_sent = 0,
      is_head = False, file_fd = - 1, file_size = 0, file_sent = 0,
      chunk = replicate FILE_CHUNK NUL, chunk_len = 0, chunk_sent = 0\<rparr>"

text \<open>A slot as \<^verbatim>\<open>calloc\<close> returns it in \<^verbatim>\<open>run_server\<close>: every byte zero.\<close>

definition calloc_client :: client_t where
  "calloc_client =
     \<lparr>active = False, fd = 0, mode = MODE_READING,
      req_buf = replicate (MAX_HEADER_BYTES + 1) NUL, req_len = 0,
      hdr_buf = replicate MAX_RESP_HEADER NUL, hdr_len = 0, hdr_sent = 0,
      mem_body = replicate MAX_ERROR_BODY NUL, mem_len = 0, mem_sent = 0,
      is_head = False, file_fd = 0, file_size = 0, file_sent = 0,
      chunk = replicate FILE_CHUNK NUL, chunk_len = 0, chunk_sent = 0\<rparr>"

record pollfd =
  pfd_fd :: int
  events :: "16 word"
  revents :: "16 word"

definition POLLIN :: "16 word" where "POLLIN = 0x001"
definition POLLOUT :: "16 word" where "POLLOUT = 0x004"
definition POLLERR :: "16 word" where "POLLERR = 0x008"
definition POLLHUP :: "16 word" where "POLLHUP = 0x010"
definition POLLNVAL :: "16 word" where "POLLNVAL = 0x020"

definition close_client_slot :: "pollfd \<Rightarrow> client_t \<Rightarrow> world \<Rightarrow> pollfd \<times> client_t \<times> world" where
  "close_client_slot pfd c w =
     (let w1 = (if fd c \<ge> 0 then sys_close (fd c) w else w);
          w2 = (if file_fd c \<ge> 0 then sys_close (file_fd c) w1 else w1)
      in (pfd\<lparr>pfd_fd := - 1, events := 0, revents := 0\<rparr>, reset_client c, w2))"

text \<open>The output that the format string of \<^verbatim>\<open>make_error_response\<close> describes.\<close>

definition error_body_text :: "int \<Rightarrow> string" where
  "error_body_text status =
     ''<html><body><h1>'' @ fmt_int status @ '' '' @ http_reason_phrase status
     @ ''</h1></body></html>'' @ [LF]"

text \<open>
  \<^verbatim>\<open>make_error_response(c, status, is_head, include_allow)\<close>; the world is read for
  the clock only.
\<close>

definition make_error_response ::
  "world \<Rightarrow> client_t \<Rightarrow> int \<Rightarrow> bool \<Rightarrow> bool \<Rightarrow> int \<times> client_t" where
  "make_error_response w c status head include_allow =
     (let c1 = c\<lparr>is_head := head, file_fd := - 1, file_size := 0, file_sent := 0,
                 chunk_len := 0, chunk_sent := 0\<rparr>;
          (n, body) = snprintf (mem_body c1) MAX_ERROR_BODY (error_body_text status);
          c2 = c1\<lparr>mem_body := body\<rparr>
      in
        if n < 0 then (- 1, c2)
        else
          let c3 = c2\<lparr>mem_len := nat n, mem_sent := 0\<rparr>;
              (h, hdr) = build_response_headers (stamp w) (hdr_buf c3) MAX_RESP_HEADER status
                           ''text/html; charset=utf-8'' (int (mem_len c3)) include_allow;
              c4 = c3\<lparr>hdr_buf := hdr\<rparr>
          in
            if h < 0 then (- 1, c4)
            else (0, c4\<lparr>hdr_len := nat h, hdr_sent := 0, mode := MODE_WRITING\<rparr>))"

text \<open>
  \<^verbatim>\<open>prepare_response(c, cfg)\<close>. The locals \<^verbatim>\<open>req\<close> and \<^verbatim>\<open>fs_path\<close> start
  indeterminate in C and are written before they are read; the model starts them
  as an unsupported request and the empty string.
\<close>

definition prepare_response ::
  "server_config_t \<Rightarrow> client_t \<Rightarrow> world \<Rightarrow> int \<times> client_t \<times> world" where
  "prepare_response cfg c w =
     (let (rc, req) = parse_http_request (take (req_len c) (req_buf c))
                        \<lparr>rq_method = HTTP_METHOD_UNSUPPORTED, rq_target = []\<rparr>
      in
        if rc = 400 then (case make_error_response w c 400 False False of (r, c') \<Rightarrow> (r, c', w))
        else if rc = 405 then (case make_error_response w c 405 False True of (r, c') \<Rightarrow> (r, c', w))
        else
          let head = (rq_method req = HTTP_METHOD_HEAD);
              (rc2, fs_path) = resolve_path (files w) (doc_root cfg) (rq_target req) [] PATH_MAX
          in
            if rc2 \<noteq> 0 then
              (case make_error_response w c
                      (if rc2 \<noteq> 400 \<and> rc2 \<noteq> 403 \<and> rc2 \<noteq> 404 then 500 else rc2) head False of
                 (r, c') \<Rightarrow> (r, c', w))
            else
              (case fs_stat (files w) fs_path of
                 Inl e \<Rightarrow>
                   (case make_error_response w c (status_from_errno e) head False of
                      (r, c') \<Rightarrow> (r, c', w))
               | Inr st \<Rightarrow>
                   let (h, hdr) = build_response_headers (stamp w) (hdr_buf c) MAX_RESP_HEADER 200
                                    (guess_mime_type fs_path) (st_size st) False;
                       c1 = c\<lparr>hdr_buf := hdr\<rparr>
                   in
                     if h < 0 then
                       (case make_error_response w c1 500 head False of (r, c') \<Rightarrow> (r, c', w))
                     else
                       let c2 = c1\<lparr>hdr_len := nat h, hdr_sent := 0, mem_len := 0, mem_sent := 0,
                                    is_head := head, file_fd := - 1, file_size := st_size st,
                                    file_sent := 0, chunk_len := 0, chunk_sent := 0\<rparr>
                       in
                         if \<not> head then
                           (case sys_open fs_path w of
                              (Inl e, w') \<Rightarrow>
                                (case make_error_response w' (c2\<lparr>file_fd := - 1\<rparr>)
                                        (status_from_errno e) head False of
                                   (r, c') \<Rightarrow> (r, c', w'))
                            | (Inr d, w') \<Rightarrow> (0, c2\<lparr>file_fd := d, mode := MODE_WRITING\<rparr>, w'))
                         else (0, c2\<lparr>mode := MODE_WRITING\<rparr>, w)))"

text \<open>
  The byte count that \<^verbatim>\<open>read_client_request\<close> passes to \<^verbatim>\<open>recv\<close>:
  \<^verbatim>\<open>(size_t)cfg->max_header_size - c->req_len\<close>, in 64-bit unsigned arithmetic.
\<close>

definition recv_room :: "server_config_t \<Rightarrow> client_t \<Rightarrow> nat" where
  "recv_room cfg c =
     (if req_len c \<le> max_header_size cfg then max_header_size cfg - req_len c
      else 2 ^ 64 - (req_len c - max_header_size cfg))"

function read_client_request ::
  "server_config_t \<Rightarrow> client_t \<Rightarrow> world \<Rightarrow> int \<times> client_t \<times> world" where
  "read_client_request cfg c w =
     (case sys_recv (recv_room cfg c) w of
        (Inr data, w') \<Rightarrow>
          if length data > 0 then
            (let c1 = c\<lparr>req_buf := buf_write (req_len c) (data @ [NUL]) (req_buf c),
                        req_len := req_len c + length data\<rparr>
             in
               if req_len c1 \<ge> max_header_size cfg then
                 (case make_error_response w' c1 400 False False of (r, c') \<Rightarrow> (r, c', w'))
               else if has_header_end (take (req_len c1) (req_buf c1)) then
                 prepare_response cfg c1 w'
               else read_client_request cfg c1 w')
          else (- 1, c, w')
      | (Inl e, w') \<Rightarrow> if e = EAGAIN then (0, c, w') else (- 1, c, w'))"
  by pat_completeness auto
termination
  by (relation "measure (\<lambda>(cfg, c, w). max_header_size cfg - req_len c)")
     (auto simp: neq_Nil_conv)

declare read_client_request.simps [simp del]

text \<open>
  \<^verbatim>\<open>send_buffer(fd, buf, len, sent)\<close>: the return value, \<^verbatim>\<open>*sent\<close> afterwards, and
  the world. The slot's socket is the only one in the model's world.
\<close>

function send_buffer :: "string \<Rightarrow> nat \<Rightarrow> nat \<Rightarrow> world \<Rightarrow> int \<times> nat \<times> world" where
  "send_buffer buf len sent w =
     (if sent < len then
        (case sys_send (take (len - sent) (drop sent buf)) w of
           (Inr n, w') \<Rightarrow>
             if n > 0 then send_buffer buf len (sent + n) w' else (- 1, sent, w')
         | (Inl e, w') \<Rightarrow> if e = EAGAIN then (0, sent, w') else (- 1, sent, w'))
      else (1, sent, w))"
  by pat_completeness auto
termination
  by (relation "measure (\<lambda>(buf, len, sent, w). len - sent)") auto

declare send_buffer.simps [simp del]

text \<open>
  The inner loop of \<^verbatim>\<open>flush_file\<close>, "Send current chunk": \<open>Some r\<close> when the loop
  makes \<^verbatim>\<open>flush_file\<close> return \<open>r\<close>, \<open>None\<close> when the chunk has been sent and the
  outer loop goes on.
\<close>

function send_chunk :: "client_t \<Rightarrow> world \<Rightarrow> int option \<times> client_t \<times> world" where
  "send_chunk c w =
     (if chunk_sent c < chunk_len c then
        (case sys_send (take (nat (chunk_len c - chunk_sent c))
                          (drop (nat (chunk_sent c)) (chunk c))) w of
           (Inr n, w') \<Rightarrow>
             if n > 0 then
               send_chunk (c\<lparr>chunk_sent := chunk_sent c + int n,
                             file_sent := file_sent c + int n\<rparr>) w'
             else (Some (- 1), c, w')
         | (Inl e, w') \<Rightarrow> if e = EAGAIN then (Some 0, c, w') else (Some (- 1), c, w'))
      else (None, c, w))"
  by pat_completeness auto
termination
  by (relation "measure (\<lambda>(c, w). nat (chunk_len c - chunk_sent c))") auto

declare send_chunk.simps [simp del]

text \<open>
  The outer loop of \<^verbatim>\<open>flush_file\<close>. A \<^verbatim>\<open>read\<close> that is interrupted is tried
  again, without bound: the loop need not end, and then the result is \<open>None\<close>.
\<close>

partial_function (option) flush_file_loop ::
  "client_t \<Rightarrow> world \<Rightarrow> (int \<times> client_t \<times> world) option" where
  "flush_file_loop c w =
     (if chunk_len c = 0 \<or> chunk_sent c = chunk_len c then
        (case sys_read FILE_CHUNK w of
           (Inr data, w') \<Rightarrow>
             if data = [] then Some (1, c, w')
             else
               (case send_chunk (c\<lparr>chunk := buf_write 0 data (chunk c),
                                    chunk_len := int (length data), chunk_sent := 0\<rparr>) w' of
                  (Some r, c', w'') \<Rightarrow> Some (r, c', w'')
                | (None, c', w'') \<Rightarrow> flush_file_loop c' w'')
         | (Inl e, w') \<Rightarrow> if e = EINTR then flush_file_loop c w' else Some (- 1, c, w'))
      else
        (case send_chunk c w of
           (Some r, c', w'') \<Rightarrow> Some (r, c', w'')
         | (None, c', w'') \<Rightarrow> flush_file_loop c' w''))"

declare flush_file_loop.simps [code]

definition flush_file :: "client_t \<Rightarrow> world \<Rightarrow> (int \<times> client_t \<times> world) option" where
  "flush_file c w = (if file_fd c < 0 then Some (1, c, w) else flush_file_loop c w)"

definition write_client_response ::
  "client_t \<Rightarrow> world \<Rightarrow> (int \<times> client_t \<times> world) option" where
  "write_client_response c w =
     (case send_buffer (hdr_buf c) (hdr_len c) (hdr_sent c) w of
        (r, sent, w') \<Rightarrow>
          let c1 = c\<lparr>hdr_sent := sent\<rparr> in
          if r \<le> 0 then Some (r, c1, w')
          else if is_head c1 then Some (1, c1, w')
          else if mem_len c1 > 0 then
            (case send_buffer (mem_body c1) (mem_len c1) (mem_sent c1) w' of
               (r2, sent2, w'') \<Rightarrow> Some (r2, c1\<lparr>mem_sent := sent2\<rparr>, w''))
          else flush_file c1 w')"

text \<open>
  The body of the loop "Handle client events" of \<^verbatim>\<open>run_server\<close>, for one slot
  with its poll entry: \<open>None\<close> when the write phase does not return.
\<close>

definition handle_client_events ::
  "server_config_t \<Rightarrow> pollfd \<Rightarrow> client_t \<Rightarrow> world \<Rightarrow> (pollfd \<times> client_t \<times> world) option" where
  "handle_client_events cfg pfd c w =
     (if \<not> active c then Some (pfd, c, w)
      else
        let rev = revents pfd in
        if rev = 0 then Some (pfd, c, w)
        else if rev AND (POLLERR OR POLLHUP OR POLLNVAL) \<noteq> 0 then
          Some (close_client_slot pfd c w)
        else
          (case (if mode c = MODE_READING \<and> rev AND POLLIN \<noteq> 0 then
                   (case read_client_request cfg c w of
                      (r, c', w') \<Rightarrow>
                        if r < 0 then (True, close_client_slot pfd c' w')
                        else (False,
                              if mode c' = MODE_WRITING then pfd\<lparr>events := POLLOUT\<rparr> else pfd,
                              c', w'))
                 else (False, pfd, c, w)) of
             (continue, pfd1, c1, w1) \<Rightarrow>
               if continue then Some (pfd1, c1, w1)
               else if active c1 \<and> mode c1 = MODE_WRITING \<and> rev AND POLLOUT \<noteq> 0 then
                 (case write_client_response c1 w1 of
                    None \<Rightarrow> None
                  | Some (wr, c2, w2) \<Rightarrow>
                      if wr < 0 \<or> wr > 0 then Some (close_client_slot pfd1 c2 w2)
                      else Some (pfd1, c2, w2))
               else Some (pfd1, c1, w1)))"

section \<open>Vocabulary of the properties\<close>

text \<open>
  A token of a request line: not empty, no white space, no NUL byte.
\<close>

definition token :: "string \<Rightarrow> bool" where
  "token s = (s \<noteq> [] \<and> \<not> list_ex isspace s \<and> \<not> list_ex (\<lambda>c. c = NUL) s)"

text \<open>
  The request line \<^verbatim>\<open>METHOD SP TARGET SP VERSION\<close> followed by CR LF and the
  rest of the request.
\<close>

definition request_bytes :: "string \<Rightarrow> string \<Rightarrow> string \<Rightarrow> string \<Rightarrow> string" where
  "request_bytes m t v rest = m @ '' '' @ t @ '' '' @ v @ CR # LF # rest"

text \<open>
  The text that \<^verbatim>\<open>strftime\<close> gives \<^verbatim>\<open>format_http_date\<close> at some moment, used in the
  examples.
\<close>

definition example_stamp :: string where
  "example_stamp = ''Mon, 02 Nov 2026 00:00:00 GMT''"

text \<open>
  The slot that \<^verbatim>\<open>make_error_response\<close> leaves when both of its \<^verbatim>\<open>snprintf\<close> calls
  fit their buffers.
\<close>

definition error_reply :: "world \<Rightarrow> client_t \<Rightarrow> int \<Rightarrow> bool \<Rightarrow> bool \<Rightarrow> client_t" where
  "error_reply w c status head allow =
     c\<lparr>is_head := head, file_fd := - 1, file_size := 0, file_sent := 0, chunk_len := 0,
       chunk_sent := 0,
       mem_body := buf_write 0 (error_body_text status @ [NUL]) (mem_body c),
       mem_len := length (error_body_text status), mem_sent := 0,
       hdr_buf := buf_write 0
         (response_header_text status (format_http_date (stamp w) 128) ''text/html; charset=utf-8''
            (int (length (error_body_text status))) allow @ [NUL]) (hdr_buf c),
       hdr_len := length (response_header_text status (format_http_date (stamp w) 128)
            ''text/html; charset=utf-8'' (int (length (error_body_text status))) allow),
       hdr_sent := 0, mode := MODE_WRITING\<rparr>"

text \<open>An example file system, world, configuration and slot.\<close>

definition example_fs :: filesystem where
  "example_fs =
     \<lparr>fs_realpath = (\<lambda>p. if p = ''/www/index.html'' \<or> p = ''/www/.%2E/x'' then Inr p
                          else if p = ''/www/link'' then Inr ''/etc/passwd'' else Inl ENOENT),
      fs_stat = (\<lambda>p. if p = ''/www/index.html'' \<or> p = ''/www/.%2E/x'' \<or> p = ''/etc/passwd''
                      then Inr \<lparr>st_is_reg = True, st_size = 5\<rparr> else Inl ENOENT),
      fs_open = (\<lambda>p. if p = ''/www/index.html'' \<or> p = ''/www/.%2E/x'' \<or> p = ''/etc/passwd''
                      then Inr ''hello'' else Inl ENOENT)\<rparr>"

definition example_world :: "string \<Rightarrow> world" where
  "example_world req =
     \<lparr>files = example_fs, stamp = example_stamp, wire = [],
      send_script = (\<lambda>n. Inr 1), send_calls = 0,
      recv_script = (\<lambda>n. if n = 0 then Inr req else Inl EAGAIN), recv_calls = 0,
      read_script = (\<lambda>n. Inr 1), read_calls = 0,
      open_data = [], open_off = 0, next_fd = 5, opened = [], closed = []\<rparr>"

definition example_cfg :: server_config_t where
  "example_cfg = \<lparr>doc_root = ''/www'', max_header_size = 8192\<rparr>"

text \<open>A slot as \<^verbatim>\<open>add_client_to_slot\<close> sets it up for descriptor 4.\<close>

definition example_slot :: client_t where
  "example_slot =
     (reset_client calloc_client)\<lparr>active := True, fd := 4, mode := MODE_READING, file_fd := - 1\<rparr>"

text \<open>The slot after the bytes \<open>req\<close> have been received into its request buffer.\<close>

definition example_reading :: "string \<Rightarrow> client_t" where
  "example_reading req =
     example_slot\<lparr>req_buf := buf_write 0 (req @ [NUL]) (req_buf example_slot),
                  req_len := length req\<rparr>"

text \<open>
  The slot that \<^verbatim>\<open>prepare_response\<close> builds for status 200 before it sets the mode
  (and, for a body, the file descriptor).
\<close>

definition ok_reply :: "world \<Rightarrow> client_t \<Rightarrow> string \<Rightarrow> stat_t \<Rightarrow> bool \<Rightarrow> client_t" where
  "ok_reply w c path st head =
     c\<lparr>hdr_buf := buf_write 0
         (response_header_text 200 (format_http_date (stamp w) 128) (guess_mime_type path)
            (st_size st) False @ [NUL]) (hdr_buf c),
       hdr_len := length (response_header_text 200 (format_http_date (stamp w) 128)
            (guess_mime_type path) (st_size st) False),
       hdr_sent := 0, mem_len := 0, mem_sent := 0, is_head := head, file_fd := - 1,
       file_size := st_size st, file_sent := 0, chunk_len := 0, chunk_sent := 0\<rparr>"

text \<open>The header block and the generated body that a slot holds for sending.\<close>

definition reply_header :: "client_t \<Rightarrow> string" where
  "reply_header c = take (hdr_len c) (hdr_buf c)"












definition io_frame :: "world \<Rightarrow> world \<Rightarrow> bool" where
  "io_frame w w' =
     (w'\<lparr>wire := [], send_calls := 0, read_calls := 0, open_off := 0\<rparr>
      = w\<lparr>wire := [], send_calls := 0, read_calls := 0, open_off := 0\<rparr>)"








section \<open>The request parser\<close>

lemma find_request_line_end_from_append:
  "CR \<notin> set xs \<Longrightarrow> find_request_line_end_from i (xs @ CR # LF # rest) = int (i + length xs)"
proof (induction xs arbitrary: i)
  case Nil
  then show ?case by simp
next
  case (Cons x xs)
  then show ?case by (cases xs) auto
qed

lemma c_str_no_nul: "NUL \<notin> set xs \<Longrightarrow> c_str xs = xs"
  by (auto simp: c_str_def)

lemma scan_s_token:
  assumes "tok \<noteq> []" and "\<not> list_ex isspace tok" and "length tok \<le> w"
    and "rest = [] \<or> isspace (hd rest)"
  shows "scan_s w (tok @ rest) = Some (tok, rest)"
proof -
  have ns: "\<forall>c\<in>set tok. \<not> isspace c" using assms(2) by (simp add: list_ex_iff)
  then have dw: "dropWhile isspace (tok @ rest) = tok @ rest"
    using assms(1) by (cases tok) auto
  have tw: "takeWhile (\<lambda>c. \<not> isspace c) (tok @ rest) = tok"
  proof (cases rest)
    case Nil
    then show ?thesis using ns by simp
  next
    case (Cons r rs)
    then have "isspace r" using assms(4) by simp
    then show ?thesis using ns Cons by simp
  qed
  have "0 < w" using assms(1,3) by (cases tok) auto
  then show ?thesis using assms(1,3) by (simp add: scan_s_def dw tw Let_def)
qed

lemma scan_s_skip: "isspace x \<Longrightarrow> scan_s w (x # xs) = scan_s w xs"
  by (simp add: scan_s_def)

lemma isspace_space: "isspace (CHR '' '')"
  by (simp add: isspace_def)

lemma token_no_CR: "token s \<Longrightarrow> CR \<notin> set s"
  by (auto simp: token_def list_ex_iff isspace_def)

lemma token_no_NUL: "token s \<Longrightarrow> NUL \<notin> set s"
  by (auto simp: token_def list_ex_iff)

lemma sscanf_request_line_tokens:
  assumes "token m" "token t" "token v" "length m \<le> 15" "length t \<le> 4095" "length v \<le> 15"
  shows "sscanf_request_line (m @ '' '' @ t @ '' '' @ v) = (3, m, t, v)"
proof -
  have 1: "scan_s 15 (m @ CHR '' '' # t @ CHR '' '' # v) = Some (m, CHR '' '' # t @ CHR '' '' # v)"
    using assms by (intro scan_s_token) (auto simp: token_def isspace_space)
  have 2: "scan_s 4095 (CHR '' '' # t @ CHR '' '' # v) = Some (t, CHR '' '' # v)"
    using assms
    by (simp add: scan_s_skip isspace_space) (intro scan_s_token, auto simp: token_def isspace_space)
  have 3: "scan_s 15 (CHR '' '' # v) = Some (v, [])"
    using assms scan_s_token[of v 15 "[]"] by (simp add: scan_s_skip isspace_space token_def)
  show ?thesis by (simp add: sscanf_request_line_def 1 2 3)
qed

lemma parse_http_request_scanned:
  assumes "find_request_line_end raw = int n" "0 < n" "n < 2048"
    and "sscanf_request_line (c_str (take n raw)) = (3, m, t, v)"
  shows "parse_http_request raw out =
     (if v \<noteq> ''HTTP/1.1'' \<and> v \<noteq> ''HTTP/1.0'' then (400, out)
      else if (case t of [] \<Rightarrow> True | c # cs \<Rightarrow> c \<noteq> CHR ''/'') then (400, out)
      else if list_ex iscntrl t then (400, out)
      else if strcasecmp_eq m ''GET'' then
        (0, out\<lparr>rq_method := HTTP_METHOD_GET, rq_target := take (PATH_MAX - 1) t\<rparr>)
      else if strcasecmp_eq m ''HEAD'' then
        (0, out\<lparr>rq_method := HTTP_METHOD_HEAD, rq_target := take (PATH_MAX - 1) t\<rparr>)
      else (405, out\<lparr>rq_method := HTTP_METHOD_UNSUPPORTED, rq_target := take (PATH_MAX - 1) t\<rparr>))"
proof -
  have "raw \<noteq> []" using assms(1,2) by (auto simp: find_request_line_end_def)
  then show ?thesis using assms by (simp add: parse_http_request_def)
qed

lemma parse_request_line:
  assumes tok: "token m" "token t" "token v"
    and len: "length m \<le> 15" "length v \<le> 15" "length (m @ '' '' @ t @ '' '' @ v) < 2048"
  shows "parse_http_request (request_bytes m t v rest) out =
     (if v \<noteq> ''HTTP/1.1'' \<and> v \<noteq> ''HTTP/1.0'' then (400, out)
      else if hd t \<noteq> CHR ''/'' then (400, out)
      else if list_ex iscntrl t then (400, out)
      else if strcasecmp_eq m ''GET'' then (0, out\<lparr>rq_method := HTTP_METHOD_GET, rq_target := t\<rparr>)
      else if strcasecmp_eq m ''HEAD'' then (0, out\<lparr>rq_method := HTTP_METHOD_HEAD, rq_target := t\<rparr>)
      else (405, out\<lparr>rq_method := HTTP_METHOD_UNSUPPORTED, rq_target := t\<rparr>))"
proof -
  define line where "line = m @ '' '' @ t @ '' '' @ v"
  have raw: "request_bytes m t v rest = line @ CR # LF # rest"
    by (simp add: line_def request_bytes_def)
  have nocr: "CR \<notin> set line" using tok by (auto simp: line_def dest: token_no_CR)
  have nonul: "NUL \<notin> set line" using tok by (auto simp: line_def dest: token_no_NUL)
  have le: "find_request_line_end (line @ CR # LF # rest) = int (length line)"
    unfolding find_request_line_end_def using find_request_line_end_from_append[OF nocr, of 0 rest]
    by simp
  have pos: "0 < length line" "length line < 2048" using len(3) by (simp_all add: line_def)
  have ln: "c_str (take (length line) (line @ CR # LF # rest)) = line"
    using c_str_no_nul[OF nonul] by simp
  have sc: "sscanf_request_line (c_str (take (length line) (line @ CR # LF # rest))) = (3, m, t, v)"
  proof -
    have "sscanf_request_line line = (3, m, t, v)"
      unfolding line_def
      using sscanf_request_line_tokens[OF tok len(1) _ len(2)] len(3) by simp
    then show ?thesis by (simp only: ln)
  qed
  have tne: "t \<noteq> []" using tok by (simp add: token_def)
  have tk: "take (PATH_MAX - 1) t = t" using len(3) by (simp add: PATH_MAX_def)
  have hd: "(case t of [] \<Rightarrow> True | c # cs \<Rightarrow> c \<noteq> CHR ''/'') = (hd t \<noteq> CHR ''/'')"
    using tne by (cases t) auto
  show ?thesis
    unfolding raw parse_http_request_scanned[OF le pos sc] tk hd ..
qed

text \<open>
  C7. The claim: a first line that does not split into exactly three tokens, or whose
  version token is neither \<^verbatim>\<open>HTTP/1.0\<close> nor \<^verbatim>\<open>HTTP/1.1\<close>, is answered by the
  bad-syntax outcome 400. The parser counts the conversions of \<^verbatim>\<open>sscanf\<close> and never
  looks at what follows the third one: the four-token line
  \<^verbatim>\<open>GET / HTTP/1.1 extra\<close> is accepted with return code 0.
\<close>

theorem parse_http_request_trailing_token:
  "parse_http_request (''GET / HTTP/1.1 extra'' @ [CR, LF, CR, LF]) out
     = (0, out\<lparr>rq_method := HTTP_METHOD_GET, rq_target := ''/''\<rparr>)"
  by (simp add: parse_http_request_def find_request_line_end_def c_str_def sscanf_request_line_def
      scan_s_def isspace_def iscntrl_def strcasecmp_eq_def tolower_def PATH_MAX_def)

section \<open>The response builder\<close>

lemma snprintf_fits:
  "length s < cap \<Longrightarrow> snprintf dst cap s = (int (length s), buf_write 0 (s @ [NUL]) dst)"
  by (simp add: snprintf_def)

lemma build_response_headers_eq:
  "build_response_headers ts dst cap status ctype clen allow =
     (let text = response_header_text status (format_http_date ts 128) ctype clen allow in
      if length text < cap then (int (length text), buf_write 0 (text @ [NUL]) dst)
      else (- 1, if cap = 0 then dst else buf_write 0 (take (cap - 1) text @ [NUL]) dst))"
  by (auto simp: build_response_headers_def snprintf_def Let_def)

text \<open>
  C4, as amended. When the capacity does not exceed the length of the formatted header
  block, \<^verbatim>\<open>build_response_headers\<close> returns -1; the destination keeps its size and
  its bytes from \<open>cap\<close> on, and its first \<open>cap\<close> bytes are the first \<open>cap - 1\<close> bytes
  of the block followed by NUL (nothing is written when \<open>cap = 0\<close>).
\<close>

theorem build_response_headers_too_small:
  assumes "cap \<le> length (response_header_text status (format_http_date ts 128) ctype clen allow)"
    and "cap \<le> length dst"
  shows "fst (build_response_headers ts dst cap status ctype clen allow) = - 1
     \<and> length (snd (build_response_headers ts dst cap status ctype clen allow)) = length dst
     \<and> drop cap (snd (build_response_headers ts dst cap status ctype clen allow)) = drop cap dst
     \<and> take cap (snd (build_response_headers ts dst cap status ctype clen allow)) =
         (if cap = 0 then []
          else take (cap - 1)
                 (response_header_text status (format_http_date ts 128) ctype clen allow) @ [NUL])"
  using assms
  by (auto simp: build_response_headers_eq Let_def buf_write_def min_def)

theorem build_response_headers_too_small_witness:
  "fst (build_response_headers example_stamp ''xxxxxxxxxxxxxxxx'' 10 200 ''text/html'' 5 False) = - 1
   \<and> take 10 (snd (build_response_headers example_stamp ''xxxxxxxxxxxxxxxx'' 10 200
                    ''text/html'' 5 False)) = ''HTTP/1.1 '' @ [NUL]
   \<and> drop 10 (snd (build_response_headers example_stamp ''xxxxxxxxxxxxxxxx'' 10 200
                    ''text/html'' 5 False)) = ''xxxxxx''"
  using build_response_headers_too_small
    [of 10 200 example_stamp "''text/html''" 5 False "''xxxxxxxxxxxxxxxx''"]
  by (simp add: response_header_text_def)

text \<open>
  C4, as stated, fails: with a capacity of 10 bytes the call returns -1 and the
  destination no longer holds what it held before.
\<close>

theorem build_response_headers_partial_counterexample:
  "fst (build_response_headers example_stamp ''xxxxxxxxxxxxxxxx'' 10 200 ''text/html'' 5 False) = - 1
   \<and> snd (build_response_headers example_stamp ''xxxxxxxxxxxxxxxx'' 10 200 ''text/html'' 5 False)
       \<noteq> ''xxxxxxxxxxxxxxxx''"
  by (simp add: build_response_headers_eq response_header_text_def buf_write_def Let_def)

section \<open>Sizes of the formatted texts\<close>

lemma dec_digits_length: "n < 10 ^ k \<Longrightarrow> 0 < k \<Longrightarrow> length (dec_digits n) \<le> k"
proof (induction n arbitrary: k rule: dec_digits.induct)
  case (1 n)
  show ?case
  proof (cases "n < 10")
    case True
    then show ?thesis using "1.prems" by (subst dec_digits.simps) simp
  next
    case False
    obtain k' where k1: "k = Suc k'" using "1.prems" by (cases k) auto
    have "0 < k'"
    proof (rule ccontr)
      assume "\<not> 0 < k'"
      then have "n < 10" using "1.prems" k1 by simp
      with False show False by simp
    qed
    note k = k1 this
    have "n div 10 < 10 ^ k'" using "1.prems" k by (simp add: less_mult_imp_div_less mult.commute)
    then have "length (dec_digits (n div 10)) \<le> k'" using "1.IH"[OF False] k by simp
    then show ?thesis using False k by (subst dec_digits.simps) simp
  qed
qed

lemma fmt_int_length: "- (2 ^ 63) \<le> i \<Longrightarrow> i < 2 ^ 63 \<Longrightarrow> length (fmt_int i) \<le> 20"
proof -
  assume a: "- (2 ^ 63) \<le> i" "i < 2 ^ 63"
  have "nat \<bar>i\<bar> < 10 ^ 19" using a by simp
  then have "length (dec_digits (nat \<bar>i\<bar>)) \<le> 19" by (rule dec_digits_length) simp
  then show ?thesis by (auto simp: fmt_int_def abs_if split: if_splits)
qed

lemma guess_mime_type_length: "length (guess_mime_type p) \<le> 37"
  by (simp add: guess_mime_type_def split: option.split)

lemma fmt_int_vocab:
  "fmt_int 200 = ''200''" "fmt_int 400 = ''400''" "fmt_int 403 = ''403''" "fmt_int 404 = ''404''"
  "fmt_int 405 = ''405''" "fmt_int 500 = ''500''"
  by (simp_all add: fmt_int_def dec_digits.simps)

lemma error_body_text_length:
  "status = 400 \<or> status = 403 \<or> status = 404 \<or> status = 405 \<or> status = 500
   \<Longrightarrow> length (error_body_text status) < 100"
  by (auto simp: error_body_text_def fmt_int_vocab http_reason_phrase_def)

lemma http_reason_phrase_length: "length (http_reason_phrase status) \<le> 21"
  by (simp add: http_reason_phrase_def)

lemma response_header_text_length:
  assumes "length (fmt_int status) \<le> 20" "length ctype \<le> 40" "length (fmt_int clen) \<le> 20"
  shows "length (response_header_text status (format_http_date ts 128) ctype clen allow) < 400"
  using assms http_reason_phrase_length[of status]
  by (auto simp: response_header_text_def format_http_date_def min_def)

lemma response_header_text_prefix:
  "take 9 (response_header_text status date ctype clen allow) = ''HTTP/1.1 ''"
  by (simp add: response_header_text_def)

lemma make_error_response_vocab:
  assumes "status = 400 \<or> status = 403 \<or> status = 404 \<or> status = 405 \<or> status = 500"
  shows "make_error_response w c status head allow = (0, error_reply w c status head allow)"
proof -
  have b: "length (error_body_text status) < MAX_ERROR_BODY"
    using error_body_text_length[OF assms] by (simp add: MAX_ERROR_BODY_def)
  have "length (fmt_int status) \<le> 20" using assms by (auto simp: fmt_int_vocab)
  moreover have "length (fmt_int (int (length (error_body_text status)))) \<le> 20"
    using error_body_text_length[OF assms] by (intro fmt_int_length) auto
  ultimately have h: "length (response_header_text status (format_http_date (stamp w) 128)
      ''text/html; charset=utf-8'' (int (length (error_body_text status))) allow) < MAX_RESP_HEADER"
    using response_header_text_length[of status "''text/html; charset=utf-8''"
        "int (length (error_body_text status))" "stamp w" allow]
    by (simp add: MAX_RESP_HEADER_def)
  show ?thesis
    using b h
    by (simp add: make_error_response_def snprintf_fits build_response_headers_eq Let_def
        error_reply_def)
qed

section \<open>Preparing the response\<close>

lemma parse_http_request_rc:
  "fst (parse_http_request raw out) = 0 \<or> fst (parse_http_request raw out) = 400
   \<or> fst (parse_http_request raw out) = 405"
  by (simp add: parse_http_request_def Let_def split: prod.splits)



lemma prepare_response_400:
  assumes "parse_http_request (take (req_len c) (req_buf c))
                 \<lparr>rq_method = HTTP_METHOD_UNSUPPORTED, rq_target = []\<rparr> = (400, q)"
  shows "prepare_response cfg c w = (0, error_reply w c 400 False False, w)"
  using assms by (simp add: prepare_response_def make_error_response_vocab)



lemma build_response_headers_200:
  assumes "- (2 ^ 63) \<le> st_size st" "st_size st < 2 ^ 63"
  shows "build_response_headers ts dst MAX_RESP_HEADER 200 (guess_mime_type path) (st_size st) False
     = (int (length (response_header_text 200 (format_http_date ts 128) (guess_mime_type path)
                       (st_size st) False)),
        buf_write 0 (response_header_text 200 (format_http_date ts 128) (guess_mime_type path)
                       (st_size st) False @ [NUL]) dst)"
proof -
  have "length (guess_mime_type path) \<le> 40" using guess_mime_type_length[of path] by simp
  then have "length (response_header_text 200 (format_http_date ts 128) (guess_mime_type path)
                       (st_size st) False) < 400"
    using fmt_int_length[OF assms] by (intro response_header_text_length) (simp_all add: fmt_int_vocab)
  then show ?thesis by (simp add: build_response_headers_eq MAX_RESP_HEADER_def Let_def)
qed

lemma prepare_response_head_ok:
  assumes "parse_http_request (take (req_len c) (req_buf c))
             \<lparr>rq_method = HTTP_METHOD_UNSUPPORTED, rq_target = []\<rparr> = (0, req)"
    and "rq_method req = HTTP_METHOD_HEAD"
    and "resolve_path (files w) (doc_root cfg) (rq_target req) [] PATH_MAX = (0, p)"
    and "fs_stat (files w) p = Inr st"
    and "- (2 ^ 63) \<le> st_size st" "st_size st < 2 ^ 63"
  shows "prepare_response cfg c w = (0, (ok_reply w c p st True)\<lparr>mode := MODE_WRITING\<rparr>, w)"
  using assms
  by (simp add: prepare_response_def build_response_headers_200 ok_reply_def)

lemma prepare_response_get_ok:
  assumes "parse_http_request (take (req_len c) (req_buf c))
             \<lparr>rq_method = HTTP_METHOD_UNSUPPORTED, rq_target = []\<rparr> = (0, req)"
    and "rq_method req \<noteq> HTTP_METHOD_HEAD"
    and "resolve_path (files w) (doc_root cfg) (rq_target req) [] PATH_MAX = (0, p)"
    and "fs_stat (files w) p = Inr st"
    and "- (2 ^ 63) \<le> st_size st" "st_size st < 2 ^ 63"
    and "fs_open (files w) p = Inr content"
  shows "prepare_response cfg c w =
     (0, (ok_reply w c p st False)\<lparr>file_fd := int (next_fd w), mode := MODE_WRITING\<rparr>,
      w\<lparr>open_data := content, open_off := 0, opened := opened w @ [p]\<rparr>)"
  using assms
  by (simp add: prepare_response_def build_response_headers_200 ok_reply_def sys_open_def)

lemma take_buf_write_0: "take (length s) (buf_write 0 (s @ t) dst) = s"
  by (simp add: buf_write_def)






lemma example_reading_request:
  "take (req_len (example_reading req)) (req_buf (example_reading req)) = req"
  by (simp add: example_reading_def take_buf_write_0)




section \<open>The status line and the version token\<close>

lemma example_resolve_index:
  "resolve_path example_fs ''/www'' ''/index.html'' [] PATH_MAX = (0, ''/www/index.html'')"
  by code_simp

lemma example_resolve_index':
  "resolve_path (files (example_world r)) (doc_root example_cfg) ''/index.html'' [] PATH_MAX = (0, ''/www/index.html'')"
  by (simp add: example_world_def example_cfg_def example_resolve_index)

lemma build_response_headers_ok:
  assumes "build_response_headers ts dst cap status ctype clen allow = (h, dst')" "0 \<le> h"
  shows "nat h = length (response_header_text status (format_http_date ts 128) ctype clen allow)
     \<and> take (nat h) dst' = response_header_text status (format_http_date ts 128) ctype clen allow"
  using assms by (auto simp: build_response_headers_eq Let_def buf_write_def split: if_splits)

lemma response_header_text_9: "9 \<le> length (response_header_text status date ctype clen allow)"
  by (simp add: response_header_text_def)

lemma build_response_headers_status_line:
  assumes "build_response_headers ts dst cap status ctype clen allow = (h, dst')" "0 \<le> h"
  shows "9 \<le> nat h \<and> take 9 dst' = ''HTTP/1.1 ''"
proof -
  let ?t = "response_header_text status (format_http_date ts 128) ctype clen allow"
  from build_response_headers_ok[OF assms] have h: "nat h = length ?t" "take (nat h) dst' = ?t"
    by blast+
  have 9: "9 \<le> nat h" using h(1) response_header_text_9[of status _ ctype clen allow] by simp
  have "take 9 dst' = take 9 (take (nat h) dst')" using 9 by (simp add: min_def)
  also have "\<dots> = ''HTTP/1.1 ''" unfolding h(2) by (rule response_header_text_prefix)
  finally show ?thesis using 9 by simp
qed

lemma make_error_response_status_line:
  assumes "make_error_response w c s hf al = (0, c')"
  shows "take 9 (reply_header c') = ''HTTP/1.1 ''"
proof -
  obtain h dst' where b: "build_response_headers (stamp w) (hdr_buf c) MAX_RESP_HEADER s
      ''text/html; charset=utf-8'' (int (length (error_body_text s))) al = (h, dst')"
    by (cases "build_response_headers (stamp w) (hdr_buf c) MAX_RESP_HEADER s
      ''text/html; charset=utf-8'' (int (length (error_body_text s))) al")
  have "0 \<le> h \<and> hdr_len c' = nat h \<and> hdr_buf c' = dst'"
    using assms b by (auto simp: make_error_response_def snprintf_def Let_def split: if_splits)
  then show ?thesis using build_response_headers_status_line[OF b]
    by (simp add: reply_header_def min_def)
qed

lemma prepare_response_status_line:
  assumes "prepare_response cfg c w = (0, c', w')"
  shows "take 9 (reply_header c') = ''HTTP/1.1 ''"
proof -
  obtain rc req where p: "parse_http_request (take (req_len c) (req_buf c))
      \<lparr>rq_method = HTTP_METHOD_UNSUPPORTED, rq_target = []\<rparr> = (rc, req)"
    by (cases "parse_http_request (take (req_len c) (req_buf c))
      \<lparr>rq_method = HTTP_METHOD_UNSUPPORTED, rq_target = []\<rparr>")
  obtain rc2 fsp where r: "resolve_path (files w) (doc_root cfg) (rq_target req) [] PATH_MAX = (rc2, fsp)"
    by (cases "resolve_path (files w) (doc_root cfg) (rq_target req) [] PATH_MAX")
  show ?thesis
  proof (cases "rc = 400 \<or> rc = 405 \<or> rc2 \<noteq> 0")
    case True
    then consider "rc = 400" | "rc \<noteq> 400" "rc = 405" | "rc \<noteq> 400" "rc \<noteq> 405" "rc2 \<noteq> 0"
      by blast
    then show ?thesis
    proof cases
      case 1
      then show ?thesis using assms p
        by (auto simp: prepare_response_def split: prod.splits dest: make_error_response_status_line)
    next
      case 2
      then show ?thesis using assms p
        by (auto simp: prepare_response_def split: prod.splits dest: make_error_response_status_line)
    next
      case 3
      then show ?thesis using assms p r
        by (auto simp: prepare_response_def split: prod.splits dest: make_error_response_status_line)
    qed
  next
    case False
    show ?thesis
    proof (cases "fs_stat (files w) fsp")
      case (Inl e)
      then show ?thesis using assms p r False
        by (auto simp: prepare_response_def split: prod.splits dest: make_error_response_status_line)
    next
      case (Inr st)
      obtain h hdr where b: "build_response_headers (stamp w) (hdr_buf c) MAX_RESP_HEADER 200
           (guess_mime_type fsp) (st_size st) False = (h, hdr)"
        by (cases "build_response_headers (stamp w) (hdr_buf c) MAX_RESP_HEADER 200
           (guess_mime_type fsp) (st_size st) False")
      obtain o' w1 where op: "sys_open fsp w = (o', w1)" by (cases "sys_open fsp w")
      show ?thesis
      proof (cases "h < 0")
        case True
        then show ?thesis using assms p r False Inr b
          by (auto simp: prepare_response_def split: prod.splits dest: make_error_response_status_line)
      next
        case h: False
        have sl: "9 \<le> nat h \<and> take 9 hdr = ''HTTP/1.1 ''"
          using build_response_headers_status_line[OF b] h by simp
        show ?thesis
        proof (cases o')
          case (Inl e)
          then show ?thesis using assms p r False \<open>fs_stat (files w) fsp = Inr st\<close> b op h sl
            by (auto simp: prepare_response_def reply_header_def min_def Let_def
                split: prod.splits if_splits dest: make_error_response_status_line)
        next
          case (Inr d)
          then show ?thesis using assms p r False \<open>fs_stat (files w) fsp = Inr st\<close> b op h sl
            by (auto simp: prepare_response_def reply_header_def min_def Let_def
                split: prod.splits if_splits)
        qed
      qed
    qed
  qed
qed

lemma make_error_response_request:
  "make_error_response w (c\<lparr>req_buf := b, req_len := k\<rparr>) s h a =
     (case make_error_response w c s h a of (r, c') \<Rightarrow> (r, c'\<lparr>req_buf := b, req_len := k\<rparr>))"
  by (simp add: make_error_response_def Let_def split: prod.splits)

lemma make_error_response_request2:
  "make_error_response w (c\<lparr>req_buf := b, req_len := k, hdr_buf := x\<rparr>) s h a =
     (case make_error_response w (c\<lparr>hdr_buf := x\<rparr>) s h a of
        (r, c') \<Rightarrow> (r, c'\<lparr>req_buf := b, req_len := k\<rparr>))"
  by (simp add: make_error_response_def Let_def split: prod.splits)

lemma prepare_response_request:
  assumes "parse_http_request (take k b) \<lparr>rq_method = HTTP_METHOD_UNSUPPORTED, rq_target = []\<rparr>
     = parse_http_request (take (req_len c) (req_buf c)) \<lparr>rq_method = HTTP_METHOD_UNSUPPORTED, rq_target = []\<rparr>"
  shows "prepare_response cfg (c\<lparr>req_buf := b, req_len := k\<rparr>) w =
     (case prepare_response cfg c w of (r, c', w') \<Rightarrow> (r, c'\<lparr>req_buf := b, req_len := k\<rparr>, w'))"
proof -
  obtain rc req where p: "parse_http_request (take (req_len c) (req_buf c))
      \<lparr>rq_method = HTTP_METHOD_UNSUPPORTED, rq_target = []\<rparr> = (rc, req)"
    by (cases "parse_http_request (take (req_len c) (req_buf c))
      \<lparr>rq_method = HTTP_METHOD_UNSUPPORTED, rq_target = []\<rparr>")
  obtain rc2 fsp where r: "resolve_path (files w) (doc_root cfg) (rq_target req) [] PATH_MAX = (rc2, fsp)"
    by (cases "resolve_path (files w) (doc_root cfg) (rq_target req) [] PATH_MAX")
  show ?thesis
  proof (cases "rc = 400 \<or> rc = 405 \<or> rc2 \<noteq> 0")
    case True
    then show ?thesis using assms p r
      by (auto simp: prepare_response_def make_error_response_request split: prod.splits)
  next
    case False
    show ?thesis
    proof (cases "fs_stat (files w) fsp")
      case (Inl e)
      then show ?thesis using assms p r False
        by (simp add: prepare_response_def make_error_response_request split: prod.splits)
    next
      case (Inr st)
      obtain h hdr where b: "build_response_headers (stamp w) (hdr_buf c) MAX_RESP_HEADER 200
           (guess_mime_type fsp) (st_size st) False = (h, hdr)"
        by (cases "build_response_headers (stamp w) (hdr_buf c) MAX_RESP_HEADER 200
           (guess_mime_type fsp) (st_size st) False")
      obtain o' w' where op: "sys_open fsp w = (o', w')" by (cases "sys_open fsp w")
      show ?thesis using assms p r False Inr b op
        by (cases o')
          (simp_all add: prepare_response_def make_error_response_request2
            make_error_response_def snprintf_def build_response_headers_def Let_def split: prod.splits)
    qed
  qed
qed

lemma parse_http_request_version:
  assumes "find_request_line_end raw0 = int n0" "0 < n0" "n0 < 2048"
    and "sscanf_request_line (c_str (take n0 raw0)) = (3, m, t, v0)"
    and "find_request_line_end raw1 = int n1" "0 < n1" "n1 < 2048"
    and "sscanf_request_line (c_str (take n1 raw1)) = (3, m, t, v1)"
    and "v0 = ''HTTP/1.0'' \<or> v0 = ''HTTP/1.1''" and "v1 = ''HTTP/1.0'' \<or> v1 = ''HTTP/1.1''"
  shows "parse_http_request raw1 out = parse_http_request raw0 out"
  unfolding parse_http_request_scanned[OF assms(1-4)] parse_http_request_scanned[OF assms(5-8)]
  using assms(9,10) by auto

lemma example_world_files:
  "fs_stat (files (example_world r)) ''/www/index.html'' = Inr \<lparr>st_is_reg = True, st_size = 5\<rparr>"
  "fs_open (files (example_world r)) ''/www/index.html'' = Inr ''hello''"
  by (simp_all add: example_world_def example_fs_def)

lemma example_parse_get:
  "v = ''HTTP/1.0'' \<or> v = ''HTTP/1.1'' \<Longrightarrow>
   parse_http_request
     (take (req_len (example_reading (request_bytes ''GET'' ''/index.html'' v [CR, LF])))
        (req_buf (example_reading (request_bytes ''GET'' ''/index.html'' v [CR, LF]))))
     \<lparr>rq_method = HTTP_METHOD_UNSUPPORTED, rq_target = []\<rparr>
   = (0, \<lparr>rq_method = HTTP_METHOD_GET, rq_target = ''/index.html''\<rparr>)"
  by (subst example_reading_request, subst parse_request_line)
     (auto simp: token_def isspace_def iscntrl_def strcasecmp_eq_def tolower_def)

lemma example_prepare_get:
  assumes "v = ''HTTP/1.0'' \<or> v = ''HTTP/1.1''"
  shows "fst (prepare_response example_cfg
           (example_reading (request_bytes ''GET'' ''/index.html'' v [CR, LF])) (example_world [])) = 0"
  by (subst prepare_response_get_ok[OF example_parse_get[OF assms] _ _ example_world_files(1)
           _ _ example_world_files(2)])
     (simp_all add: example_resolve_index')


text \<open>
  C10. Every header block that the server prepares begins with the literal
  \<^verbatim>\<open>HTTP/1.1\<close> and a space, and the version token of the request has no influence:
  two requests that are scanned into the same method and target tokens and into
  accepted version tokens, equal or not, get the same reply; the slots differ in
  nothing but the request bytes they hold.
\<close>

theorem response_version_is_fixed:
  assumes "find_request_line_end raw0 = int n0" "0 < n0" "n0 < 2048"
    and "sscanf_request_line (c_str (take n0 raw0)) = (3, m, t, v0)"
    and "find_request_line_end raw1 = int n1" "0 < n1" "n1 < 2048"
    and "sscanf_request_line (c_str (take n1 raw1)) = (3, m, t, v1)"
    and "v0 = ''HTTP/1.0'' \<or> v0 = ''HTTP/1.1''" and "v1 = ''HTTP/1.0'' \<or> v1 = ''HTTP/1.1''"
    and "take (req_len c) (req_buf c) = raw0" and "take k b = raw1"
  shows "prepare_response cfg (c\<lparr>req_buf := b, req_len := k\<rparr>) w =
           (case prepare_response cfg c w of
              (r, c', w') \<Rightarrow> (r, c'\<lparr>req_buf := b, req_len := k\<rparr>, w'))
     \<and> (\<forall>c0 w0 c' w'. prepare_response cfg c0 w0 = (0, c', w') \<longrightarrow>
            take 9 (reply_header c') = ''HTTP/1.1 '')
     \<and> (\<forall>c0 w0 s hf al c'. make_error_response w0 c0 s hf al = (0, c') \<longrightarrow>
            take 9 (reply_header c') = ''HTTP/1.1 '')"
proof -
  have "prepare_response cfg (c\<lparr>req_buf := b, req_len := k\<rparr>) w =
           (case prepare_response cfg c w of
              (r, c', w') \<Rightarrow> (r, c'\<lparr>req_buf := b, req_len := k\<rparr>, w'))"
    by (intro prepare_response_request)
       (simp add: assms(11,12) parse_http_request_version[OF assms(1-10)])
  then show ?thesis
    using prepare_response_status_line make_error_response_status_line by blast
qed

theorem response_version_is_fixed_witness:
  "prepare_response example_cfg
        ((example_reading (request_bytes ''GET'' ''/index.html'' ''HTTP/1.0'' [CR, LF]))
           \<lparr>req_buf := request_bytes ''GET'' ''/index.html'' ''HTTP/1.1'' [CR, LF], req_len := 28\<rparr>)
        (example_world [])
      = (case prepare_response example_cfg
                (example_reading (request_bytes ''GET'' ''/index.html'' ''HTTP/1.0'' [CR, LF]))
                (example_world []) of
           (r, c', w') \<Rightarrow>
             (r, c'\<lparr>req_buf := request_bytes ''GET'' ''/index.html'' ''HTTP/1.1'' [CR, LF],
                     req_len := 28\<rparr>, w'))
   \<and> take 9 (reply_header (fst (snd (prepare_response example_cfg
          (example_reading (request_bytes ''GET'' ''/index.html'' ''HTTP/1.0'' [CR, LF]))
          (example_world []))))) = ''HTTP/1.1 ''"
proof -
  let ?r0 = "request_bytes ''GET'' ''/index.html'' ''HTTP/1.0'' [CR, LF]"
  let ?r1 = "request_bytes ''GET'' ''/index.html'' ''HTTP/1.1'' [CR, LF]"
  let ?c0 = "example_reading ?r0"
  have s0: "find_request_line_end ?r0 = int 24" "(0::nat) < 24" "(24::nat) < 2048"
    "sscanf_request_line (c_str (take 24 ?r0)) = (3, ''GET'', ''/index.html'', ''HTTP/1.0'')"
    by code_simp+
  have s1: "find_request_line_end ?r1 = int 24" "(0::nat) < 24" "(24::nat) < 2048"
    "sscanf_request_line (c_str (take 24 ?r1)) = (3, ''GET'', ''/index.html'', ''HTTP/1.1'')"
    by code_simp+
  have v: "''HTTP/1.0'' = ''HTTP/1.0'' \<or> ''HTTP/1.0'' = ''HTTP/1.1''"
    "''HTTP/1.1'' = ''HTTP/1.0'' \<or> ''HTTP/1.1'' = ''HTTP/1.1''" by simp_all
  have r0: "take (req_len ?c0) (req_buf ?c0) = ?r0"
    by (rule example_reading_request)
  have r1: "take 28 ?r1 = ?r1" by (simp add: request_bytes_def)
  note t = response_version_is_fixed[OF s0 s1 v r0 r1, of example_cfg "example_world []"]
  obtain c' w' where p: "prepare_response example_cfg ?c0 (example_world []) = (0, c', w')"
    using example_prepare_get[of "''HTTP/1.0''"]
    by (cases "prepare_response example_cfg ?c0 (example_world [])") auto
  from t have "take 9 (reply_header c') = ''HTTP/1.1 ''" using p by blast
  then have c3: "take 9 (reply_header (fst (snd (prepare_response example_cfg ?c0
      (example_world []))))) = ''HTTP/1.1 ''"
    by (simp add: p)
  from t have c1: "prepare_response example_cfg (?c0\<lparr>req_buf := ?r1, req_len := 28\<rparr>) (example_world [])
      = (case prepare_response example_cfg ?c0 (example_world []) of
           (r, c', w') \<Rightarrow> (r, c'\<lparr>req_buf := ?r1, req_len := 28\<rparr>, w'))"
    by blast
  show ?thesis using c1 c3 by blast
qed

section \<open>The path resolver\<close>






lemma suffix_drop_iff: "suffix s p \<longleftrightarrow> (length s \<le> length p \<and> drop (length p - length s) p = s)"
  by (metis suffix_def append_eq_conv_conj append_take_drop_id diff_add_inverse2 length_append
      le_add2 suffix_drop suffix_order.dual_order.antisym suffix_length_le length_drop diff_diff_cancel)

lemma contains_traversal_alt:
  "contains_traversal p \<longleftrightarrow>
     CHR 0x5C \<in> set p \<or> suffix ''/..'' p \<or> sublist ''/../'' p
     \<or> sublist ''%2e%2e'' p \<or> sublist ''%2E%2E'' p \<or> sublist ''%2e.'' p
     \<or> sublist ''.%2e'' p \<or> sublist ''%2E.'' p"
proof -
  have a: "take 4 p = ''/../'' \<Longrightarrow> sublist ''/../'' p"
    by (metis prefix_imp_sublist take_is_prefix)
  have b: "(length p \<ge> 3 \<and> drop (length p - 3) p = ''/..'') \<longleftrightarrow> suffix ''/..'' p"
    using suffix_drop_iff[of "''/..''" p] by (simp add: numeral_3_eq_3)
  have c: "p = ''/..'' \<Longrightarrow> suffix ''/..'' p" by simp
  show ?thesis
    unfolding contains_traversal_def strstr_found_def b using a c by auto
qed


lemma sublist_append_sep:
  assumes "t \<noteq> []" "last t = s" "s \<notin> set pfx"
  shows "last n = s \<Longrightarrow> n \<noteq> [] \<Longrightarrow> sublist n (t @ pfx) \<longleftrightarrow> sublist n t"
    and "s \<notin> set n \<Longrightarrow> sublist n (t @ pfx) \<longleftrightarrow> sublist n t \<or> sublist n pfx"
proof -
  have split: "sublist n (t @ pfx) \<longleftrightarrow> sublist n t \<or> sublist n pfx
      \<or> (\<exists>n1 n2. n = n1 @ n2 \<and> suffix n1 t \<and> prefix n2 pfx)" for n
    by (rule sublist_append)
  {
    assume l: "last n = s" "n \<noteq> []"
    have "\<not> sublist n pfx"
    proof
      assume "sublist n pfx"
      then have "set n \<subseteq> set pfx" by (rule set_mono_sublist)
      moreover have "s \<in> set n" using l by (metis last_in_set)
      ultimately show False using assms(3) by auto
    qed
    moreover have "sublist n t" if "n = n1 @ n2" "suffix n1 t" "prefix n2 pfx" for n1 n2
    proof (cases "n2 = []")
      case True
      then show ?thesis using that by (simp add: suffix_imp_sublist)
    next
      case False
      then have "last n2 = s" using l that(1) by simp
      then have "s \<in> set n2" using False by (metis last_in_set)
      then have "s \<in> set pfx" using that(3) by (meson set_mono_prefix subsetD)
      then show ?thesis using assms(3) by simp
    qed
    ultimately show "sublist n (t @ pfx) \<longleftrightarrow> sublist n t" using split[of n] by blast
  }
  {
    assume ns: "s \<notin> set n"
    have "sublist n pfx" if "n = n1 @ n2" "suffix n1 t" "prefix n2 pfx" for n1 n2
    proof (cases "n1 = []")
      case True
      then show ?thesis using that by (simp add: prefix_imp_sublist)
    next
      case False
      then have "last n1 = s" using that(2) assms(1,2) by (auto simp: suffix_def)
      then have "s \<in> set n1" using False by (metis last_in_set)
      then show ?thesis using ns that(1) by simp
    qed
    then show "sublist n (t @ pfx) \<longleftrightarrow> sublist n t \<or> sublist n pfx" using split[of n] by blast
  }
qed

lemma suffix_parent_append:
  assumes "t \<noteq> []" "last t = CHR ''/''" "CHR ''/'' \<notin> set pfx" "pfx = [] \<or> hd pfx \<noteq> CHR ''.''"
  shows "suffix ''/..'' (t @ pfx) \<longleftrightarrow> suffix ''/..'' t"
proof -
  have 1: "\<not> suffix ''/..'' t"
  proof
    assume "suffix ''/..'' t"
    then obtain zs where "t = zs @ ''/..''" by (auto simp: suffix_def)
    then have "last t = CHR ''.''" by simp
    then show False using assms(2) by simp
  qed
  have 2: "\<not> suffix ''/..'' (t @ pfx)"
  proof
    assume s: "suffix ''/..'' (t @ pfx)"
    show False
    proof (cases "pfx = []")
      case True
      then show ?thesis using s 1 by simp
    next
      case False
      from s have "suffix ''/..'' pfx \<or> (\<exists>a b. ''/..'' = a @ b \<and> suffix a t \<and> b = pfx)"
        by (auto simp: suffix_append)
      moreover have "\<not> suffix ''/..'' pfx"
      proof
        assume "suffix ''/..'' pfx"
        then have "CHR ''/'' \<in> set pfx" by (auto simp: suffix_def)
        then show False using assms(3) by simp
      qed
      ultimately obtain a b where ab: "''/..'' = a @ b" "suffix a t" "b = pfx" by blast
      have "a \<noteq> []" using ab(1,3) assms(3) by (cases a) auto
      then obtain a' where a': "a = CHR ''/'' # a'" using ab(1) by (cases a) auto
      then have "a' @ b = ''..''" using ab(1) by simp
      moreover have "hd b \<in> set (a' @ b)" using False ab(3) by simp
      ultimately have "hd b = CHR ''.''" by simp
      then show False using assms(4) False ab(3) by simp
    qed
  qed
  show ?thesis using 1 2 by simp
qed

lemma resolve_path_same_target:
  assumes "u1 \<noteq> []" "u2 \<noteq> []" "hd u1 = hd u2"
    and "take (PATH_MAX - 1) (takeWhile (\<lambda>c. c \<noteq> CHR ''?'' \<and> c \<noteq> CHR ''#'') u1)
       = take (PATH_MAX - 1) (takeWhile (\<lambda>c. c \<noteq> CHR ''?'' \<and> c \<noteq> CHR ''#'') u2)"
  shows "resolve_path fs root u1 out sz = resolve_path fs root u2 out sz"
proof -
  have c: "(case u1 of [] \<Rightarrow> True | c # cs \<Rightarrow> c \<noteq> CHR ''/'')
         = (case u2 of [] \<Rightarrow> True | c # cs \<Rightarrow> c \<noteq> CHR ''/'')"
    using assms(1-3) by (cases u1; cases u2) simp_all
  show ?thesis unfolding resolve_path_def c assms(4) ..
qed

lemma resolve_path_target:
  assumes "take (PATH_MAX - 1) (takeWhile (\<lambda>c. c \<noteq> CHR ''?'' \<and> c \<noteq> CHR ''#'') u) = T"
    and "u \<noteq> []" "hd u = CHR ''/''" "0 < sz"
  shows "resolve_path fs root u out sz =
     (if T = [] then (400, out)
      else if contains_traversal T then (403, out)
      else if T = ''/'' then resolve_candidate fs root ''/index.html'' out sz
      else if last T = CHR ''/'' then
        (if length T + 11 > PATH_MAX then (400, out)
         else resolve_candidate fs root (take (PATH_MAX - 1) (T @ ''index.html'')) out sz)
      else resolve_candidate fs root (take (PATH_MAX - 1) T) out sz)"
proof -
  have c: "(case u of [] \<Rightarrow> True | c # cs \<Rightarrow> c \<noteq> CHR ''/'') = False"
    using assms(2,3) by (cases u) simp_all
  have s: "snd (str_snprintf PATH_MAX x) = take (PATH_MAX - 1) x" for x
    by (simp add: str_snprintf_def)
  have i: "take (PATH_MAX - 1) ''/index.html'' = ''/index.html''" by (simp add: PATH_MAX_def)
  show ?thesis unfolding resolve_path_def c assms(1) s i Let_def using assms(4) by simp
qed

lemma contains_traversal_append:
  assumes "t \<noteq> []" "last t = CHR ''/''"
    and "CHR ''/'' \<notin> set pfx" "CHR ''%'' \<notin> set pfx" "CHR 0x5C \<notin> set pfx"
    and "pfx = [] \<or> hd pfx \<noteq> CHR ''.''"
  shows "contains_traversal (t @ pfx) = contains_traversal t"
proof -
  have enc: "sublist n (t @ pfx) \<longleftrightarrow> sublist n t"
    if "CHR ''/'' \<notin> set n" "CHR ''%'' \<in> set n" for n
  proof -
    have "\<not> sublist n pfx"
    proof
      assume "sublist n pfx"
      then have "set n \<subseteq> set pfx" by (rule set_mono_sublist)
      then show False using that(2) assms(4) by auto
    qed
    then show ?thesis using sublist_append_sep(2)[OF assms(1,2,3) that(1)] by simp
  qed
  have par: "sublist ''/../'' (t @ pfx) \<longleftrightarrow> sublist ''/../'' t"
    by (rule sublist_append_sep(1)[OF assms(1,2,3)]) simp_all
  show ?thesis
    unfolding contains_traversal_alt
    using suffix_parent_append[OF assms(1,2,3,6)] par assms(5)
      enc[of "''%2e%2e''"] enc[of "''%2E%2E''"] enc[of "''%2e.''"] enc[of "''.%2e''"]
      enc[of "''%2E.''"]
    by simp
qed

lemma resolve_candidate_too_long:
  "length root + length n \<ge> PATH_MAX \<Longrightarrow> resolve_candidate fs root n out sz = (400, out)"
  by (simp add: resolve_candidate_def str_snprintf_def)

lemma resolve_path_default:
  assumes "root \<noteq> []" "t \<noteq> []" "last t = CHR ''/''"
  shows "resolve_path fs root (t @ ''index.html'') out sz = resolve_path fs root t out sz"
proof (cases "\<forall>x\<in>set t. x \<noteq> CHR ''?'' \<and> x \<noteq> CHR ''#''")
  case False
  then obtain x where "x \<in> set t" "\<not> (x \<noteq> CHR ''?'' \<and> x \<noteq> CHR ''#'')" by blast
  then have "takeWhile (\<lambda>c. c \<noteq> CHR ''?'' \<and> c \<noteq> CHR ''#'') (t @ ''index.html'')
      = takeWhile (\<lambda>c. c \<noteq> CHR ''?'' \<and> c \<noteq> CHR ''#'') t"
    by (rule takeWhile_append1)
  then show ?thesis using assms(2)
    by (intro resolve_path_same_target) simp_all
next
  case True
  then have tw: "takeWhile (\<lambda>c. c \<noteq> CHR ''?'' \<and> c \<noteq> CHR ''#'') t = t"
    "takeWhile (\<lambda>c. c \<noteq> CHR ''?'' \<and> c \<noteq> CHR ''#'') (t @ ''index.html'') = t @ ''index.html''"
    by simp_all
  show ?thesis
  proof (cases "length t \<ge> PATH_MAX - 1")
    case True
    then show ?thesis using assms(2)
      by (intro resolve_path_same_target) (simp_all add: tw)
  next
    case short: False
    define pfx where "pfx = take (PATH_MAX - 1 - length t) ''index.html''"
    have tr: "take (PATH_MAX - 1) (takeWhile (\<lambda>c. c \<noteq> CHR ''?'' \<and> c \<noteq> CHR ''#'') (t @ ''index.html'')) = t @ pfx"
      unfolding tw using short by (simp add: pfx_def)
    have tl: "take (PATH_MAX - 1) (takeWhile (\<lambda>c. c \<noteq> CHR ''?'' \<and> c \<noteq> CHR ''#'') t) = t"
      unfolding tw using short by simp
    have pp: "prefix pfx ''index.html''" unfolding pfx_def by (rule take_is_prefix)
    then have sub: "set pfx \<subseteq> set ''index.html''" by (rule set_mono_prefix)
    have ne: "pfx \<noteq> []" using short unfolding pfx_def by simp
    have hd: "hd pfx = CHR ''i''" using ne pp by (cases pfx) (auto simp: prefix_def)
    have nsl: "CHR ''/'' \<notin> set pfx" "CHR ''%'' \<notin> set pfx" "CHR 0x5C \<notin> set pfx"
      using sub by auto
    have lst: "last (t @ pfx) \<noteq> CHR ''/''" using ne nsl(1) by (metis last_appendR last_in_set)
    have trav: "contains_traversal (t @ pfx) = contains_traversal t"
      by (rule contains_traversal_append[OF assms(2,3) nsl]) (simp add: hd)
    have n1: "t @ pfx \<noteq> ''/''" using ne assms(2) by (cases t; cases pfx) auto
    have n0: "t @ pfx \<noteq> []" using ne by simp
    have L: "resolve_path fs root t out sz =
      (if sz = 0 then (500, out) else if hd t \<noteq> CHR ''/'' then (400, out)
       else if contains_traversal t then (403, out)
       else if t = ''/'' then resolve_candidate fs root ''/index.html'' out sz
       else if length t + 11 > PATH_MAX then (400, out)
       else resolve_candidate fs root (take (PATH_MAX - 1) (t @ ''index.html'')) out sz)"
    proof (cases "sz = 0 \<or> hd t \<noteq> CHR ''/''")
      case True
      then show ?thesis using assms(2) by (cases t) (auto simp: resolve_path_def)
    next
      case False
      then show ?thesis using resolve_path_target[OF tl assms(2), of sz fs root out] assms(2,3)
        by simp
    qed
    have R: "resolve_path fs root (t @ ''index.html'') out sz =
      (if sz = 0 then (500, out) else if hd t \<noteq> CHR ''/'' then (400, out)
       else if contains_traversal t then (403, out)
       else resolve_candidate fs root (take (PATH_MAX - 1) (t @ pfx)) out sz)"
    proof (cases "sz = 0 \<or> hd t \<noteq> CHR ''/''")
      case True
      then show ?thesis using assms(2) by (cases t) (auto simp: resolve_path_def)
    next
      case False
      then have "hd (t @ ''index.html'') = CHR ''/''" using assms(2) by simp
      from resolve_path_target[OF tr _ this, of sz fs root out] False n0 n1 lst trav assms(2) ne
      show ?thesis by simp
    qed
    show ?thesis
    proof (cases "t = ''/''")
      case True
      then have "pfx = ''index.html''" by (simp add: pfx_def PATH_MAX_def)
      then show ?thesis unfolding L R using True by (simp add: PATH_MAX_def)
    next
      case tn: False
      show ?thesis
      proof (cases "length t + 11 > PATH_MAX")
        case True
        then have "length (t @ pfx) = PATH_MAX - 1" using short by (simp add: pfx_def PATH_MAX_def)
        then have "length root + length (take (PATH_MAX - 1) (t @ pfx)) \<ge> PATH_MAX"
          using assms(1) by (cases root) (simp_all add: PATH_MAX_def)
        then have "resolve_candidate fs root (take (PATH_MAX - 1) (t @ pfx)) out sz = (400, out)"
          by (rule resolve_candidate_too_long)
        then show ?thesis unfolding L R using True tn by simp
      next
        case False
        then have "pfx = ''index.html''" by (simp add: pfx_def PATH_MAX_def)
        then show ?thesis unfolding L R using False tn by simp
      qed
    qed
  qed
qed





lemma make_error_response_world:
  "(case make_error_response w c s h a of (r, c') \<Rightarrow> (r, c', w)) = (r', c'', w') \<Longrightarrow> w' = w"
  by (auto split: prod.splits)







text \<open>
  C8. For a root that is not the empty string, resolving \<^verbatim>\<open>/\<close> gives what
  resolving \<^verbatim>\<open>/index.html\<close> gives, and resolving any target that ends in a slash
  gives what resolving that target followed by \<^verbatim>\<open>index.html\<close> gives: the same
  return code and the same output path.
\<close>

theorem resolve_path_default_document:
  assumes "root \<noteq> []"
  shows "resolve_path fs root ''/'' out sz = resolve_path fs root ''/index.html'' out sz
     \<and> (\<forall>t. t \<noteq> [] \<and> last t = CHR ''/'' \<longrightarrow>
           resolve_path fs root t out sz = resolve_path fs root (t @ ''index.html'') out sz)"
  using resolve_path_default[OF assms, of _ fs out sz] resolve_path_default[OF assms, of "''/''" fs out sz]
  by simp

theorem resolve_path_default_document_witness:
  "''/www'' \<noteq> []
   \<and> resolve_path example_fs ''/www'' ''/'' [] PATH_MAX
       = resolve_path example_fs ''/www'' ''/index.html'' [] PATH_MAX
   \<and> resolve_path example_fs ''/www'' ''/docs/'' [] PATH_MAX
       = resolve_path example_fs ''/www'' (''/docs/'' @ ''index.html'') [] PATH_MAX"
proof -
  have h: "''/www'' \<noteq> []" by simp
  have l: "''/docs/'' \<noteq> [] \<and> last ''/docs/'' = CHR ''/''" by simp
  show ?thesis
    using resolve_path_default_document[OF h, of example_fs "[]" PATH_MAX] h l by blast
qed

section \<open>The write phase\<close>













lemma io_frame_refl: "io_frame w w"
  by (simp add: io_frame_def)





































lemma length_buf_write_0: "length data \<le> length (buf_write 0 (data @ [NUL]) buf)"
  by (simp add: buf_write_def)









end
